theory Spec2Isabelle
  imports Main "HOL-Library.Word"
begin

unbundle bit_operations_syntax

section \<open>The WS2812 PWM driver (ws2812.c)\<close>

text \<open>
  A shallow embedding of the pixel path of \<^verbatim>\<open>ws2812.c\<close>: the gamma table and \<^verbatim>\<open>gamma_\<close>,
  \<^verbatim>\<open>led_encode\<close>, \<^verbatim>\<open>ws2812_write\<close>, \<^verbatim>\<open>clear_leds\<close>, \<^verbatim>\<open>issue_dma\<close> and \<^verbatim>\<open>ws2812_callback\<close>.

  Data are machine words: \<^verbatim>\<open>unsigned char\<close> is \<open>8 word\<close>, \<^verbatim>\<open>int\<close> and \<^verbatim>\<open>dma_addr_t\<close> are
  \<open>32 word\<close> (the driver is built for the 32-bit BCM2708; it casts pointers to \<^verbatim>\<open>int\<close>).
  Sizes, counts and offsets into the two \<^verbatim>\<open>kmalloc\<close>ed areas are \<open>nat\<close>: for a device whose
  frame buffer of \<open>num_leds * 12 + 15\<close> bytes was allocated (predicate \<open>state_ok\<close> below, which
  also keeps that size below \<open>2 ^ 31\<close>) none of the C expressions over them wraps, so the
  arithmetic of \<open>nat\<close> is the arithmetic of the code.
\<close>

subsection \<open>Constants and the gamma table\<close>

type_synonym u8 = "8 word"
type_synonym s32 = "32 word"
type_synonym dma_addr_t = "32 word"

definition BYTES_PER_LED :: nat where
  "BYTES_PER_LED = 12"

definition RESET_BYTES :: nat where
  "RESET_BYTES = (50 * 24) div 80"

definition GammaE :: "u8 list" where
  "GammaE =
     [0, 0, 0, 0, 0, 0, 0, 0, 0, 0, 0, 0, 0, 0, 0, 0] @
     [0, 0, 0, 0, 0, 0, 1, 1, 1, 1, 1, 1, 1, 2, 2, 2] @
     [2, 2, 2, 3, 3, 3, 3, 3, 4, 4, 4, 4, 5, 5, 5, 5] @
     [6, 6, 6, 7, 7, 7, 8, 8, 8, 9, 9, 9, 10, 10, 11, 11] @
     [11, 12, 12, 13, 13, 13, 14, 14, 15, 15, 16, 16, 17, 17, 18, 18] @
     [19, 19, 20, 21, 21, 22, 22, 23, 23, 24, 25, 25, 26, 27, 27, 28] @
     [29, 29, 30, 31, 31, 32, 33, 34, 34, 35, 36, 37, 37, 38, 39, 40] @
     [40, 41, 42, 43, 44, 45, 46, 46, 47, 48, 49, 50, 51, 52, 53, 54] @
     [55, 56, 57, 58, 59, 60, 61, 62, 63, 64, 65, 66, 67, 68, 69, 70] @
     [71, 72, 73, 74, 76, 77, 78, 79, 80, 81, 83, 84, 85, 86, 88, 89] @
     [90, 91, 93, 94, 95, 96, 98, 99, 100, 102, 103, 104, 106, 107, 109, 110] @
     [111, 113, 114, 116, 117, 119, 120, 121, 123, 124, 126, 128, 129, 131, 132, 134] @
     [135, 137, 138, 140, 142, 143, 145, 146, 148, 150, 151, 153, 155, 157, 158, 160] @
     [162, 163, 165, 167, 169, 170, 172, 174, 176, 178, 179, 181, 183, 185, 187, 189] @
     [191, 193, 194, 196, 198, 200, 202, 204, 206, 208, 210, 212, 214, 216, 218, 220] @
     [222, 224, 227, 229, 231, 233, 235, 237, 239, 241, 244, 246, 248, 250, 252, 255]"

text \<open>
  \<^verbatim>\<open>gamma_\<close> (a name Isabelle does not accept, hence \<open>gamma_fn\<close>): the operands are
  promoted to \<^verbatim>\<open>int\<close>, the product is at most \<open>255 * 255\<close>, and \<^verbatim>\<open>/\<close> on non-negative
  operands truncates as \<open>div\<close> does. \<open>gamma_index\<close> is the subscript the code computes.
\<close>

definition gamma_index :: "u8 \<Rightarrow> u8 \<Rightarrow> int" where
  "gamma_index brightness val =
     (let bright = uint val;
          bright = (bright * uint brightness) div 255
      in bright)"

definition gamma_fn :: "u8 \<Rightarrow> u8 \<Rightarrow> u8" where
  "gamma_fn brightness val = GammaE ! nat (gamma_index brightness val)"

subsection \<open>Device state\<close>

record ws2812_state =
  dev :: nat
  dma_chan :: nat
  dma_addr :: dma_addr_t
  buffer :: "u8 list"
  pixbuf :: "u8 list"
  brightness :: u8
  invert :: "32 word"
  num_leds :: nat

text \<open>
  \<open>buffer\<close> and \<open>pixbuf\<close> are the contents of the two areas the probe function allocates:
  \<^verbatim>\<open>kmalloc(num_leds * BYTES_PER_LED + RESET_BYTES)\<close> and \<^verbatim>\<open>kmalloc(num_leds * sizeof(int))\<close>.
  \<open>state_ok\<close> records these sizes. A pointer into \<open>buffer\<close> is an offset; a store through it
  is a list update, which leaves the list unchanged beyond its end where the C store would
  overrun the allocation, so the lemmas about stores carry the premise that the offsets
  they write lie within the list.
\<close>

definition state_ok :: "ws2812_state \<Rightarrow> bool" where
  "state_ok state =
     (length (buffer state) = num_leds state * BYTES_PER_LED + RESET_BYTES \<and>
      length (pixbuf state) = num_leds state * 4 \<and>
      length (buffer state) < 2 ^ 31)"

subsection \<open>Kernel services used by the driver\<close>

text \<open>
  The DMA engine and \<^verbatim>\<open>copy_from_user\<close> belong to the kernel. Each call the driver makes to
  the DMA API is recorded as an event with its arguments; what the kernel answers
  (the bus address returned by \<^verbatim>\<open>dma_map_single\<close>, whether
  \<^verbatim>\<open>dmaengine_prep_slave_single\<close> returns a descriptor) is given by a \<open>platform\<close>.
  \<open>Dma_map_single d bs n a\<close>: device \<open>d\<close>, the \<open>n\<close> bytes \<open>bs\<close> at the mapped pointer, result \<open>a\<close>.
\<close>

datatype dma_event =
    Dma_map_single nat "u8 list" nat dma_addr_t
  | Dmaengine_prep_slave_single nat dma_addr_t nat bool
  | Dmaengine_submit
  | Dma_async_issue_pending nat
  | Dma_unmap_single nat dma_addr_t nat

record platform =
  map_single_result :: dma_addr_t
  prep_result :: bool

datatype errno = EFAULT

text \<open>
  \<open>copy_from_user dst src n\<close>: \<open>src\<close> holds the bytes readable at the user pointer. The
  result is the number of bytes that could not be copied and the new contents of \<open>dst\<close>
  (the part not copied is zeroed, as the kernel does).
\<close>

definition copy_from_user :: "u8 list \<Rightarrow> u8 list \<Rightarrow> nat \<Rightarrow> nat \<times> u8 list" where
  "copy_from_user dst src n =
     (let copied = min n (length src)
      in (n - copied, take copied src @ replicate (n - copied) 0 @ drop n dst))"

primrec memset :: "u8 list \<Rightarrow> nat \<Rightarrow> u8 \<Rightarrow> nat \<Rightarrow> u8 list" where
  "memset buf p c 0 = buf"
| "memset buf p c (Suc n) = memset (buf[p := c]) (Suc p) c n"

subsection \<open>DMA transfer\<close>

definition ws2812_callback :: "ws2812_state \<Rightarrow> dma_event list" where
  "ws2812_callback state =
     [Dma_unmap_single (dev state) (dma_addr state) (num_leds state * BYTES_PER_LED)]"

definition issue_dma ::
  "platform \<Rightarrow> ws2812_state \<Rightarrow> u8 list \<Rightarrow> nat \<Rightarrow> int \<times> ws2812_state \<times> dma_event list" where
  "issue_dma pf state buf len =
     (let state = state\<lparr>dma_addr := map_single_result pf\<rparr>;
          ev_map = Dma_map_single (dev state) (take len buf) len (dma_addr state)
      in if dma_addr state = 0 then (- 1, state, [ev_map])
         else
           let ev_prep = Dmaengine_prep_slave_single (dma_chan state) (dma_addr state) len
                           (prep_result pf)
           in if \<not> prep_result pf then (- 1, state, [ev_map, ev_prep])
              else (0, state,
                    [ev_map, ev_prep, Dmaengine_submit, Dma_async_issue_pending (dma_chan state)]))"

function clear_leds_loop1 :: "ws2812_state \<Rightarrow> nat \<Rightarrow> u8 list \<Rightarrow> u8 list" where
  "clear_leds_loop1 state i buf =
     (if i < num_leds state * BYTES_PER_LED
      then clear_leds_loop1 state (i + 1) (buf[i := 0x88])
      else buf)"
  by pat_completeness auto
termination
  by (relation "measure (\<lambda>(state, i, buf). num_leds state * BYTES_PER_LED - i)") auto

function clear_leds_loop2 :: "ws2812_state \<Rightarrow> nat \<Rightarrow> u8 list \<Rightarrow> u8 list" where
  "clear_leds_loop2 state i buf =
     (if i < RESET_BYTES
      then clear_leds_loop2 state (i + 1) (buf[num_leds state * BYTES_PER_LED + i := 0])
      else buf)"
  by pat_completeness auto
termination
  by (relation "measure (\<lambda>(state, i, buf). RESET_BYTES - i)") auto

definition clear_leds ::
  "platform \<Rightarrow> ws2812_state \<Rightarrow> int \<times> ws2812_state \<times> dma_event list" where
  "clear_leds pf state =
     (let buf = clear_leds_loop1 state 0 (buffer state);
          buf = clear_leds_loop2 state 0 buf;
          state = state\<lparr>buffer := buf\<rparr>;
          (r, state, evs) = issue_dma pf state (buffer state)
                              (num_leds state * BYTES_PER_LED + RESET_BYTES)
      in (0, state, evs))"

subsection \<open>Pixel encoding\<close>

function led_encode_loop :: "int \<Rightarrow> s32 \<Rightarrow> u8 list \<times> nat \<Rightarrow> u8 list \<times> nat" where
  "led_encode_loop i rearrange (buf, p) =
     (if i \<ge> 0 then
        led_encode_loop (i - 1) (signed_drop_bit 2 rearrange)
          (if rearrange AND 3 = 0 then (buf[p := 0x88], p + 1)
           else if rearrange AND 3 = 1 then (buf[p := 0x8e], p + 1)
           else if rearrange AND 3 = 2 then (buf[p := 0xe8], p + 1)
           else if rearrange AND 3 = 3 then (buf[p := 0xee], p + 1)
           else (buf, p))
      else (buf, p))"
  by pat_completeness auto
termination
  by (relation "measure (\<lambda>(i, rearrange, bp). nat (i + 1))") auto

definition led_encode :: "ws2812_state \<Rightarrow> s32 \<Rightarrow> u8 list \<times> nat \<Rightarrow> u8 list \<times> nat" where
  "led_encode state rgb buf =
     (let red = gamma_fn (brightness state) (ucast (signed_drop_bit 8 rgb));
          blu = gamma_fn (brightness state) (ucast rgb);
          grn = gamma_fn (brightness state) (ucast (signed_drop_bit 16 rgb));
          rearrange = ucast red + push_bit 8 (ucast blu) + push_bit 16 (ucast grn)
      in led_encode_loop 11 rearrange buf)"

text \<open>
  The byte written for one two-bit group, and the bytes written by \<open>n\<close> iterations of the
  loop of \<open>led_encode\<close>; both are used only to state lemmas about the loop.
\<close>

definition quad_byte :: "s32 \<Rightarrow> u8" where
  "quad_byte x = (if x = 0 then 0x88 else if x = 1 then 0x8e else if x = 2 then 0xe8 else 0xee)"

primrec led_bytes :: "nat \<Rightarrow> s32 \<Rightarrow> u8 list" where
  "led_bytes 0 r = []"
| "led_bytes (Suc n) r = quad_byte (r AND 3) # led_bytes n (signed_drop_bit 2 r)"

text \<open>The value of \<open>rearrange\<close> on entry to the loop, named for the lemmas.\<close>

definition led_rearrange :: "ws2812_state \<Rightarrow> s32 \<Rightarrow> s32" where
  "led_rearrange state rgb =
     ucast (gamma_fn (brightness state) (ucast (signed_drop_bit 8 rgb))) +
     push_bit 8 (ucast (gamma_fn (brightness state) (ucast rgb))) +
     push_bit 16 (ucast (gamma_fn (brightness state) (ucast (signed_drop_bit 16 rgb))))"

subsection \<open>The write operation\<close>

text \<open>\<open>rd32 m i\<close> is \<^verbatim>\<open>((int32_t *) m)[i]\<close> on the little-endian target.\<close>

definition rd32 :: "u8 list \<Rightarrow> nat \<Rightarrow> s32" where
  "rd32 m i =
     ucast (m ! (4 * i)) OR push_bit 8 (ucast (m ! (4 * i + 1))) OR
     push_bit 16 (ucast (m ! (4 * i + 2))) OR push_bit 24 (ucast (m ! (4 * i + 3)))"

function ws2812_write_loop ::
  "ws2812_state \<Rightarrow> nat \<Rightarrow> nat \<Rightarrow> nat \<Rightarrow> u8 list \<times> nat \<Rightarrow> u8 list \<times> nat" where
  "ws2812_write_loop state nleds i p_rgb p_buffer =
     (if i < nleds
      then ws2812_write_loop state nleds (i + 1) (p_rgb + 1)
             (led_encode state (rd32 (pixbuf state) p_rgb) p_buffer)
      else p_buffer)"
  by pat_completeness auto
termination
  by (relation "measure (\<lambda>(state, nleds, i, p_rgb, p_buffer). nleds - i)") auto

text \<open>
  \<open>ws2812_write pf state ubuf count\<close>: \<open>ubuf\<close> holds the bytes readable at the user pointer
  \<^verbatim>\<open>buf\<close>. The result is the return value (\<open>Inl EFAULT\<close> for \<^verbatim>\<open>-EFAULT\<close>), the new
  device state and the DMA calls made. The return type is \<^verbatim>\<open>ssize_t\<close>: \<open>Inr count\<close> is the
  value returned for \<open>count < 2 ^ 31\<close>, which the theorems about it assume (the VFS passes
  no larger count to a driver).
\<close>

definition ws2812_write ::
  "platform \<Rightarrow> ws2812_state \<Rightarrow> u8 list \<Rightarrow> nat \<Rightarrow>
     (errno + nat) \<times> ws2812_state \<times> dma_event list" where
  "ws2812_write pf state ubuf count =
     (let nleds = min (count div 4) (num_leds state);
          (left, pix) = copy_from_user (pixbuf state) ubuf (nleds * 4);
          state = state\<lparr>pixbuf := pix\<rparr>
      in if left \<noteq> 0 then (Inl EFAULT, state, [])
         else
           let (buf, p_buffer) = ws2812_write_loop state nleds 0 0 (buffer state, 0);
               buf = memset buf p_buffer 0 RESET_BYTES;
               len = p_buffer - 0 + RESET_BYTES;
               state = state\<lparr>buffer := buf\<rparr>;
               (r, state, evs) = issue_dma pf state (buffer state) len
           in (Inr count, state, evs))"

text \<open>
  The bytes written by the pixel loop of \<open>ws2812_write\<close> for \<open>n\<close> pixels read from
  word index \<open>j\<close> of the staging area; used only to state lemmas about that loop.
\<close>

primrec pixels_bytes :: "ws2812_state \<Rightarrow> nat \<Rightarrow> nat \<Rightarrow> u8 list" where
  "pixels_bytes state 0 j = []"
| "pixels_bytes state (Suc n) j =
     led_bytes 12 (led_rearrange state (rd32 (pixbuf state) j)) @ pixels_bytes state n (Suc j)"

text \<open>
  The frame \<open>ws2812_write\<close> builds from \<open>k\<close> accepted pixels: their encodings followed by
  the reset gap. Used only to state lemmas.
\<close>

definition write_frame :: "ws2812_state \<Rightarrow> u8 list \<Rightarrow> nat \<Rightarrow> u8 list" where
  "write_frame state ubuf k =
     pixels_bytes (state\<lparr>pixbuf := take (k * 4) ubuf @ drop (k * 4) (pixbuf state)\<rparr>) k 0 @
     replicate RESET_BYTES 0"

subsection \<open>Example configuration\<close>

definition s0 :: ws2812_state where
  "s0 = \<lparr>dev = 1, dma_chan = 2, dma_addr = 0, buffer = replicate 27 0xAA,
          pixbuf = replicate 4 0, brightness = 255, invert = 0, num_leds = 1\<rparr>"

definition pf_ok :: platform where
  "pf_ok = \<lparr>map_single_result = 0x1000, prep_result = True\<rparr>"

definition pf_noprep :: platform where
  "pf_noprep = \<lparr>map_single_result = 0x1000, prep_result = False\<rparr>"

declare led_encode_loop.simps [simp del]
declare clear_leds_loop1.simps [simp del]
declare clear_leds_loop2.simps [simp del]
declare ws2812_write_loop.simps [simp del]

section \<open>Lemmas\<close>

subsection \<open>The gamma table\<close>

lemma length_GammaE: "length GammaE = 256"
  by (simp add: GammaE_def)

lemma sorted_GammaE: "sorted GammaE"
  unfolding GammaE_def by (simp only: append_Cons append_Nil sorted2 sorted1) simp

lemma GammaE_0: "GammaE ! 0 = 0"
  by (simp add: GammaE_def)

lemma uint_u8_le: "uint (x :: u8) \<le> 255"
  using uint_lt2p [of x] by simp

lemma gamma_index_bounds:
  "0 \<le> gamma_index b v \<and> gamma_index b v \<le> 255"
proof -
  have "uint v * uint b \<le> 255 * 255"
    by (rule mult_mono) (simp_all add: uint_u8_le)
  then have "uint v * uint b div 255 \<le> 255" by simp
  moreover have "0 \<le> uint v * uint b div 255"
    by (simp add: pos_imp_zdiv_nonneg_iff)
  ultimately show ?thesis by (simp add: gamma_index_def)
qed

lemma gamma_index_nat_less: "nat (gamma_index b v) < length GammaE"
  using gamma_index_bounds [of b v] unfolding length_GammaE by linarith

lemma gamma_index_mono:
  assumes "c \<le> c'"
  shows "gamma_index b c \<le> gamma_index b c'"
proof -
  from assms have "uint c \<le> uint c'" by (simp add: word_le_def)
  then have "uint c * uint b \<le> uint c' * uint b"
    by (rule mult_right_mono) simp
  then show ?thesis
    by (simp add: gamma_index_def zdiv_mono1)
qed

subsection \<open>The encoder loop\<close>

lemma and3_take: "(r::s32) AND 3 = take_bit 2 r"
  by (simp add: take_bit_eq_mask mask_eq_exp_minus_1)

lemma and3_cases: "(r::s32) AND 3 = 0 \<or> r AND 3 = 1 \<or> r AND 3 = 2 \<or> r AND 3 = 3"
proof -
  have "unat (r AND 3) < 4"
  proof -
    have "unat (take_bit 2 r) = take_bit 2 (unat r)"
      by (rule unsigned_take_bit_eq)
    also have "\<dots> < 4"
      by (simp add: take_bit_eq_mod)
    finally show ?thesis by (simp only: and3_take)
  qed
  then have "unat (r AND 3) = 0 \<or> unat (r AND 3) = 1 \<or> unat (r AND 3) = 2 \<or> unat (r AND 3) = 3"
    by arith
  then show ?thesis
    by (simp add: word_unat_eq_iff [of "r AND 3"])
qed

lemma led_encode_loop_step:
  "led_encode_loop (int (Suc n) - 1) r (buf, p) =
     led_encode_loop (int n - 1) (signed_drop_bit 2 r) (buf[p := quad_byte (r AND 3)], Suc p)"
  using and3_cases [of r]
  by (subst led_encode_loop.simps) (auto simp: quad_byte_def)

lemma led_encode_loop_stop: "led_encode_loop (int 0 - 1) r (buf, p) = (buf, p)"
  by (subst led_encode_loop.simps) simp

lemma take_Suc_update: "p < length buf \<Longrightarrow> take (Suc p) (buf[p := v]) = take p buf @ [v]"
  by (simp add: take_Suc_conv_app_nth)

lemma led_encode_loop_conv:
  "p + n \<le> length buf \<Longrightarrow>
   led_encode_loop (int n - 1) r (buf, p) =
     (take p buf @ led_bytes n r @ drop (p + n) buf, p + n)"
proof (induction n arbitrary: r buf p)
  case 0
  show ?case by (simp only: led_encode_loop_stop) simp
next
  case (Suc n)
  let ?v = "quad_byte (r AND 3)"
  from Suc.prems have lt: "p < length buf" by simp
  from Suc.prems have "Suc p + n \<le> length (buf[p := ?v])" by simp
  from Suc.IH [OF this, of "signed_drop_bit 2 r"] lt show ?case
    by (simp only: led_encode_loop_step) (simp add: take_Suc_update)
qed

lemma length_led_bytes: "length (led_bytes n r) = n"
  by (induction n arbitrary: r) simp_all

lemma set_led_bytes: "set (led_bytes n r) \<subseteq> {0x88, 0x8e, 0xe8, 0xee}"
  by (induction n arbitrary: r) (auto simp: quad_byte_def)

lemma led_encode_conv:
  "p + 12 \<le> length buf \<Longrightarrow>
   led_encode state rgb (buf, p) =
     (take p buf @ led_bytes 12 (led_rearrange state rgb) @ drop (p + 12) buf, p + 12)"
  using led_encode_loop_conv [of p 12 buf "led_rearrange state rgb"]
  by (simp add: led_encode_def led_rearrange_def Let_def)

lemma led_bytes_0: "led_bytes n 0 = replicate n 0x88"
  by (induction n) (simp_all add: quad_byte_def)

lemma gamma_fn_0: "gamma_fn b 0 = 0"
  by (simp add: gamma_fn_def gamma_index_def GammaE_0)

lemma led_rearrange_0: "led_rearrange state 0 = 0"
  by (simp add: led_rearrange_def gamma_fn_0)

subsection \<open>The loops of the write and clear operations\<close>

lemma ws2812_write_loop_conv:
  "p + 12 * k \<le> length buf \<Longrightarrow>
   ws2812_write_loop state (i + k) i j (buf, p) =
     (take p buf @ pixels_bytes state k j @ drop (p + 12 * k) buf, p + 12 * k)"
proof (induction k arbitrary: i j buf p)
  case 0
  show ?case by (subst ws2812_write_loop.simps) simp
next
  case (Suc k)
  let ?bs = "led_bytes 12 (led_rearrange state (rd32 (pixbuf state) j))"
  let ?buf = "take p buf @ ?bs @ drop (p + 12) buf"
  from Suc.prems have p12: "p + 12 \<le> length buf" by simp
  then have enc: "led_encode state (rd32 (pixbuf state) j) (buf, p) = (?buf, p + 12)"
    by (rule led_encode_conv)
  have len: "length ?buf = length buf"
    using p12 by (simp add: length_led_bytes)
  have "(p + 12) + 12 * k \<le> length ?buf"
    using Suc.prems len by simp
  from Suc.IH [OF this, of "Suc i" "Suc j"]
  have "ws2812_write_loop state (Suc i + k) (Suc i) (Suc j) (?buf, p + 12) =
          (take (p + 12) ?buf @ pixels_bytes state k (Suc j) @ drop (p + 12 + 12 * k) ?buf,
           p + 12 + 12 * k)" .
  moreover have "take (p + 12) ?buf = take p buf @ ?bs"
    using p12 by (simp add: length_led_bytes)
  moreover have "drop (p + 12 + 12 * k) ?buf = drop (p + 12 * Suc k) buf"
    using p12 by (simp add: length_led_bytes ac_simps)
  ultimately show ?case
    by (subst ws2812_write_loop.simps) (simp add: enc)
qed

lemma length_pixels_bytes: "length (pixels_bytes state k j) = 12 * k"
  by (induction k arbitrary: j) (simp_all add: length_led_bytes)

lemma memset_conv:
  "p + n \<le> length buf \<Longrightarrow> memset buf p c n = take p buf @ replicate n c @ drop (p + n) buf"
proof (induction n arbitrary: buf p)
  case 0
  show ?case by simp
next
  case (Suc n)
  from Suc.prems have "Suc p + n \<le> length (buf[p := c])" by simp
  from Suc.IH [OF this] Suc.prems show ?case
    by (simp add: take_Suc_update)
qed

lemma clear_leds_loop1_conv:
  "i + k = num_leds state * BYTES_PER_LED \<Longrightarrow> i + k \<le> length buf \<Longrightarrow>
   clear_leds_loop1 state i buf = take i buf @ replicate k 0x88 @ drop (i + k) buf"
proof (induction k arbitrary: i buf)
  case 0
  then show ?case by (subst clear_leds_loop1.simps) simp
next
  case (Suc k)
  from Suc.prems have a: "Suc i + k = num_leds state * BYTES_PER_LED" by simp
  from Suc.prems have b: "Suc i + k \<le> length (buf[i := 0x88])" by simp
  from Suc.prems have lt: "i < num_leds state * BYTES_PER_LED" by simp
  from Suc.prems have lt': "i < length buf" by simp
  from Suc.IH [OF a b] lt lt' show ?case
    by (subst clear_leds_loop1.simps) (simp add: take_Suc_update)
qed

lemma clear_leds_loop2_conv:
  "i + k = RESET_BYTES \<Longrightarrow> num_leds state * BYTES_PER_LED + RESET_BYTES \<le> length buf \<Longrightarrow>
   clear_leds_loop2 state i buf =
     take (num_leds state * BYTES_PER_LED + i) buf @ replicate k 0 @
     drop (num_leds state * BYTES_PER_LED + i + k) buf"
proof (induction k arbitrary: i buf)
  case 0
  then show ?case by (subst clear_leds_loop2.simps) simp
next
  case (Suc k)
  let ?n = "num_leds state * BYTES_PER_LED"
  from Suc.prems have a: "Suc i + k = RESET_BYTES" by simp
  from Suc.prems have b: "?n + RESET_BYTES \<le> length (buf[?n + i := 0])" by simp
  from Suc.prems have lt: "i < RESET_BYTES" by simp
  from Suc.prems have lt': "?n + i < length buf" by simp
  from Suc.IH [OF a b] lt lt' show ?case
    by (subst clear_leds_loop2.simps) (simp add: take_Suc_update [symmetric])
qed

subsection \<open>Closed forms of the operations\<close>

lemma issue_dma_conv:
  "issue_dma pf st buf len =
     (if map_single_result pf = 0 then - 1 else if prep_result pf then 0 else - 1,
      st\<lparr>dma_addr := map_single_result pf\<rparr>,
      Dma_map_single (dev st) (take len buf) len (map_single_result pf) #
        (if map_single_result pf = 0 then []
         else Dmaengine_prep_slave_single (dma_chan st) (map_single_result pf) len (prep_result pf) #
           (if prep_result pf then [Dmaengine_submit, Dma_async_issue_pending (dma_chan st)]
            else [])))"
  by (simp add: issue_dma_def Let_def)

lemma copy_from_user_ok:
  "n \<le> length src \<Longrightarrow> copy_from_user dst src n = (0, take n src @ drop n dst)"
  by (simp add: copy_from_user_def Let_def min_def)

lemma ws2812_write_conv:
  assumes ok: "state_ok state"
    and rd: "min (count div 4) (num_leds state) * 4 \<le> length ubuf"
  shows "ws2812_write pf state ubuf count =
     (let k = min (count div 4) (num_leds state);
          st = state\<lparr>pixbuf := take (k * 4) ubuf @ drop (k * 4) (pixbuf state)\<rparr>;
          buf = write_frame state ubuf k @ drop (k * 12 + RESET_BYTES) (buffer state);
          (r, st', evs) = issue_dma pf (st\<lparr>buffer := buf\<rparr>) buf (k * 12 + RESET_BYTES)
      in (Inr count, st', evs))"
proof -
  let ?k = "min (count div 4) (num_leds state)"
  let ?st = "state\<lparr>pixbuf := take (?k * 4) ubuf @ drop (?k * 4) (pixbuf state)\<rparr>"
  let ?px = "pixels_bytes ?st ?k 0"
  let ?buf1 = "?px @ drop (?k * 12) (buffer state)"
  from ok have len: "length (buffer state) = num_leds state * 12 + RESET_BYTES"
    by (simp add: state_ok_def BYTES_PER_LED_def)
  then have fit: "?k * 12 + RESET_BYTES \<le> length (buffer state)" by simp
  then have "0 + 12 * ?k \<le> length (buffer ?st)" by simp
  from ws2812_write_loop_conv [OF this, of ?st 0 0]
  have loop: "ws2812_write_loop ?st ?k 0 0 (buffer state, 0) = (?buf1, ?k * 12)"
    by (simp add: mult.commute)
  have len1: "length ?buf1 = length (buffer state)"
    using fit by (simp add: length_pixels_bytes)
  with fit have "?k * 12 + RESET_BYTES \<le> length ?buf1" by simp
  from memset_conv [OF this, of 0]
  have ms: "memset ?buf1 (?k * 12) 0 RESET_BYTES =
              write_frame state ubuf ?k @ drop (?k * 12 + RESET_BYTES) (buffer state)"
    using fit by (simp add: length_pixels_bytes write_frame_def ac_simps)
  show ?thesis
    unfolding ws2812_write_def
    by (simp add: copy_from_user_ok [OF rd] Let_def loop ms)
qed

lemma clear_leds_conv:
  assumes ok: "state_ok state"
  shows "clear_leds pf state =
     (let buf = replicate (num_leds state * 12) 0x88 @ replicate RESET_BYTES 0;
          (r, st', evs) = issue_dma pf (state\<lparr>buffer := buf\<rparr>) buf
                            (num_leds state * 12 + RESET_BYTES)
      in (0, st', evs))"
proof -
  let ?n = "num_leds state * BYTES_PER_LED"
  from ok have len: "length (buffer state) = ?n + RESET_BYTES"
    by (simp add: state_ok_def)
  have "0 + ?n = ?n" and "0 + ?n \<le> length (buffer state)"
    using len by simp_all
  from clear_leds_loop1_conv [OF this]
  have l1: "clear_leds_loop1 state 0 (buffer state) = replicate ?n 0x88 @ drop ?n (buffer state)"
    by simp
  let ?b1 = "replicate ?n 0x88 @ drop ?n (buffer state)"
  have "0 + RESET_BYTES = RESET_BYTES" and "?n + RESET_BYTES \<le> length ?b1"
    using len by simp_all
  from clear_leds_loop2_conv [OF this]
  have l2: "clear_leds_loop2 state 0 ?b1 = replicate ?n 0x88 @ replicate RESET_BYTES 0"
    using len by simp
  show ?thesis
    unfolding clear_leds_def
    by (simp add: l1 l2 Let_def) (simp add: BYTES_PER_LED_def)
qed

lemma rd32_zero: "4 * j + 3 < n \<Longrightarrow> rd32 (replicate n 0) j = 0"
  by (simp add: rd32_def)

lemma pixels_bytes_zero:
  "pixbuf st = replicate n 0 \<Longrightarrow> 4 * (j + k) \<le> n \<Longrightarrow>
   pixels_bytes st k j = replicate (12 * k) 0x88"
proof (induction k arbitrary: j)
  case 0
  show ?case by simp
next
  case (Suc k)
  from Suc.prems have "4 * j + 3 < n" by simp
  then have z: "rd32 (pixbuf st) j = 0"
    using Suc.prems(1) by (simp add: rd32_zero)
  from Suc.prems have "4 * (Suc j + k) \<le> n" by simp
  from Suc.IH [OF Suc.prems(1) this] show ?case
    by (simp add: z led_rearrange_0 led_bytes_0 replicate_add [symmetric])
qed

lemma length_write_frame: "length (write_frame state ubuf k) = k * 12 + RESET_BYTES"
  by (simp add: write_frame_def length_pixels_bytes)

lemma drop_write_frame: "drop (k * 12) (write_frame state ubuf k) = replicate RESET_BYTES 0"
  by (simp add: write_frame_def length_pixels_bytes)

lemma state_ok_s0: "state_ok s0"
  by (simp add: state_ok_def s0_def BYTES_PER_LED_def RESET_BYTES_def)

lemma write_frame_zero:
  assumes "length (pixbuf state) = n * 4"
  shows "write_frame (state\<lparr>brightness := b\<rparr>) (replicate (n * 4) 0) n =
           replicate (n * 12) 0x88 @ replicate RESET_BYTES 0"
proof -
  let ?st = "state\<lparr>brightness := b,
               pixbuf := take (n * 4) (replicate (n * 4) 0) @ drop (n * 4) (pixbuf state)\<rparr>"
  have "pixbuf ?st = replicate (n * 4) 0"
    using assms by simp
  moreover have "4 * (0 + n) \<le> n * 4" by simp
  ultimately have "pixels_bytes ?st n 0 = replicate (12 * n) 0x88"
    by (rule pixels_bytes_zero)
  then show ?thesis
    by (simp add: write_frame_def mult.commute)
qed

lemma copy_from_user_left:
  "fst (copy_from_user dst src n) = n - length src"
  by (simp add: copy_from_user_def Let_def min_def)

lemma ws2812_write_fault:
  assumes "length ubuf < min (count div 4) (num_leds state) * 4"
  shows "ws2812_write pf state ubuf count =
     (Inl EFAULT,
      state\<lparr>pixbuf := snd (copy_from_user (pixbuf state) ubuf
                             (min (count div 4) (num_leds state) * 4))\<rparr>, [])"
proof -
  from assms have "fst (copy_from_user (pixbuf state) ubuf
                     (min (count div 4) (num_leds state) * 4)) \<noteq> 0"
    by (simp add: copy_from_user_left)
  then show ?thesis
    by (simp add: ws2812_write_def Let_def split_beta)
qed

lemma ws2812_write_nofault:
  assumes "min (count div 4) (num_leds state) * 4 \<le> length ubuf"
  shows "fst (ws2812_write pf state ubuf count) = Inr count"
proof -
  from assms have "fst (copy_from_user (pixbuf state) ubuf
                     (min (count div 4) (num_leds state) * 4)) = 0"
    by (simp add: copy_from_user_left)
  then show ?thesis
    by (simp add: ws2812_write_def Let_def split_beta)
qed

lemma callback_unmap_length:
  assumes "ws2812_callback state = [Dma_unmap_single d a n]"
  shows "n \<noteq> k * BYTES_PER_LED + RESET_BYTES"
proof -
  have "num_leds state * 12 \<noteq> k * 12 + 15"
    by presburger
  with assms show ?thesis
    by (auto simp: ws2812_callback_def BYTES_PER_LED_def RESET_BYTES_def)
qed

section \<open>Properties\<close>

subsection \<open>Gamma and brightness correction\<close>

text \<open>
  C4. For every brightness \<open>b\<close> and channel value \<open>c\<close>, \<open>gamma_fn b c\<close> is the table entry at
  \<open>(c * b) / 255\<close>, the quotient truncated (\<open>255 * q \<le> c * b < 255 * (q + 1)\<close>); at
  brightness 255 it is the entry at \<open>c\<close>, and at brightness 0 it is 0.
\<close>

theorem gamma_fn_scaled_lookup:
  "gamma_fn b c = GammaE ! nat (uint c * uint b div 255) \<and>
   255 * gamma_index b c \<le> uint c * uint b \<and>
   uint c * uint b < 255 * (gamma_index b c + 1) \<and>
   gamma_fn 255 c = GammaE ! unat c \<and>
   gamma_fn 0 c = 0"
proof -
  have "gamma_fn b c = GammaE ! nat (uint c * uint b div 255)"
    by (simp add: gamma_fn_def gamma_index_def)
  moreover have "255 * gamma_index b c \<le> uint c * uint b"
    by (simp add: gamma_index_def)
  moreover have "uint c * uint b < 255 * (gamma_index b c + 1)"
  proof -
    have "x < 255 * (x div 255 + 1)" for x :: int
      by presburger
    then show ?thesis by (simp add: gamma_index_def)
  qed
  moreover have "gamma_fn 255 c = GammaE ! unat c"
    by (simp add: gamma_fn_def gamma_index_def)
  moreover have "gamma_fn 0 c = 0"
    by (simp add: gamma_fn_def gamma_index_def GammaE_0)
  ultimately show ?thesis by blast
qed

text \<open>
  C10. The subscript \<open>(v * b) / 255\<close> computed by \<open>gamma_fn\<close> lies in \<open>0..255\<close> for every
  brightness and channel value, within the 256 entries of the table.
\<close>

theorem gamma_index_in_table:
  "gamma_index b v = uint v * uint b div 255 \<and>
   0 \<le> gamma_index b v \<and> gamma_index b v \<le> 255 \<and>
   length GammaE = 256 \<and> nat (gamma_index b v) < length GammaE"
proof -
  have "gamma_index b v = uint v * uint b div 255"
    by (simp add: gamma_index_def)
  then show ?thesis
    using gamma_index_bounds [of b v] gamma_index_nat_less [of b v]
    by (simp add: length_GammaE)
qed

text \<open>
  C8. The gamma table is non-decreasing, and for a fixed brightness \<open>gamma_fn\<close> is
  monotone in the channel value: \<open>c \<le> c'\<close> gives \<open>gamma_fn b c \<le> gamma_fn b c'\<close>.
\<close>

theorem gamma_fn_mono:
  "sorted GammaE \<and> (c \<le> c' \<longrightarrow> gamma_fn b c \<le> gamma_fn b c')"
proof -
  have "gamma_fn b c \<le> gamma_fn b c'" if "c \<le> c'"
  proof -
    from that have "nat (gamma_index b c) \<le> nat (gamma_index b c')"
      by (intro nat_mono gamma_index_mono)
    moreover have "nat (gamma_index b c') < length GammaE"
      by (rule gamma_index_nat_less)
    ultimately show ?thesis
      unfolding gamma_fn_def by (rule sorted_nth_mono [OF sorted_GammaE])
  qed
  with sorted_GammaE show ?thesis by blast
qed

theorem gamma_fn_mono_witness:
  "sorted GammaE \<and> (10 :: u8) \<le> 200 \<and> gamma_fn 128 10 \<le> gamma_fn 128 200"
  using gamma_fn_mono [of 10 200 128] by simp

subsection \<open>The reset gap\<close>

text \<open>
  C3, as the spec states it (a reset gap of 40 bytes), fails: \<open>RESET_BYTES\<close> is
  \<open>(50 * 24) / 80\<close>.
\<close>

theorem reset_bytes_not_40: "RESET_BYTES \<noteq> 40"
  by (simp add: RESET_BYTES_def)

text \<open>
  C3, amended. The reset gap is 15 bytes: \<open>RESET_BYTES = (50 * 24) / 80 = 15\<close>, the 120 bit
  times of 50 microseconds at 2.4 MHz packed eight to a byte; a write of no pixels maps
  exactly these 15 bytes for DMA.
\<close>

theorem reset_bytes_15:
  "RESET_BYTES = 15 \<and> 8 * RESET_BYTES = 50 * 24 div 10 \<and>
   (\<exists>state' frame rest.
      ws2812_write pf state [] 0 =
        (Inr 0, state', Dma_map_single (dev state) frame 15 (map_single_result pf) # rest))"
  by (simp add: RESET_BYTES_def ws2812_write_def copy_from_user_def issue_dma_def Let_def
      ws2812_write_loop.simps)

subsection \<open>The pixel encoder\<close>

text \<open>
  C1. For every pixel word and brightness, \<open>led_encode\<close> writes exactly 12 bytes at the
  cursor, each one of \<open>0x88\<close>, \<open>0x8E\<close>, \<open>0xE8\<close>, \<open>0xEE\<close>, leaves the rest of the buffer as it
  was, and returns the cursor advanced by 12 (the 12 bytes lying within the buffer).
\<close>

theorem led_encode_appends_12:
  "p + 12 \<le> length buf \<Longrightarrow>
   \<exists>bs. length bs = 12 \<and> set bs \<subseteq> {0x88, 0x8e, 0xe8, 0xee} \<and>
        led_encode state rgb (buf, p) = (take p buf @ bs @ drop (p + 12) buf, p + 12)"
  using led_encode_conv [of p buf state rgb] length_led_bytes set_led_bytes by blast

theorem led_encode_appends_12_witness:
  "(0::nat) + 12 \<le> length (replicate 27 (0xAA :: u8)) \<and>
   (\<exists>bs. length bs = 12 \<and> set bs \<subseteq> {0x88, 0x8e, 0xe8, 0xee} \<and>
        led_encode s0 0x112233 (replicate 27 0xAA, 0) =
          (take 0 (replicate 27 0xAA) @ bs @ drop (0 + 12) (replicate 27 0xAA), 0 + 12))"
  using led_encode_appends_12 [of 0 "replicate 27 0xAA" s0 "0x112233"] by simp

subsection \<open>The frame built by a write\<close>

text \<open>
  C2. A write of \<open>count\<close> bytes whose \<open>k' = min (count / 4) num_leds\<close> accepted pixel words
  are readable is not an error, and the bytes it hands to \<^verbatim>\<open>dma_map_single\<close> are the first
  \<open>k' * 12 + RESET_BYTES\<close> bytes of the frame buffer, the last \<open>RESET_BYTES\<close> of them zero.
  More pixels than \<open>num_leds\<close> are truncated to \<open>num_leds\<close>; no pixels give a frame of
  \<open>RESET_BYTES\<close> bytes.
\<close>

theorem ws2812_write_frame:
  assumes "state_ok state"
    and "count < 2 ^ 31"
    and "min (count div 4) (num_leds state) * 4 \<le> length ubuf"
  shows "\<exists>state' frame rest.
     ws2812_write pf state ubuf count =
       (Inr count, state',
        Dma_map_single (dev state) frame (min (count div 4) (num_leds state) * 12 + RESET_BYTES)
          (map_single_result pf) # rest) \<and>
     frame = take (min (count div 4) (num_leds state) * 12 + RESET_BYTES) (buffer state') \<and>
     length frame = min (count div 4) (num_leds state) * 12 + RESET_BYTES \<and>
     drop (min (count div 4) (num_leds state) * 12) frame = replicate RESET_BYTES 0 \<and>
     (num_leds state < count div 4 \<longrightarrow> length frame = num_leds state * 12 + RESET_BYTES) \<and>
     (count div 4 = 0 \<longrightarrow> length frame = RESET_BYTES)"
proof -
  let ?k = "min (count div 4) (num_leds state)"
  let ?frame = "write_frame state ubuf ?k"
  have tk: "take (?k * 12 + RESET_BYTES) (?frame @ drop (?k * 12 + RESET_BYTES) (buffer state)) = ?frame"
    by (simp add: length_write_frame)
  have a: "num_leds state < count div 4 \<longrightarrow> length ?frame = num_leds state * 12 + RESET_BYTES"
    by (simp add: length_write_frame min_def)
  have b: "count div 4 = 0 \<longrightarrow> length ?frame = RESET_BYTES"
    by (simp add: length_write_frame)
  show ?thesis
    unfolding ws2812_write_conv [OF assms(1) assms(3)] issue_dma_conv Let_def prod.case tk
    using a b by (simp add: length_write_frame drop_write_frame tk)
qed

theorem ws2812_write_frame_witness:
  "state_ok s0 \<and> (8::nat) < 2 ^ 31 \<and>
   min (8 div 4) (num_leds s0) * 4 \<le> length [0x33, 0x22, 0x11, 0, 1, 2, 3, 4 :: u8] \<and>
   num_leds s0 < 8 div 4 \<and>
   (\<exists>state' frame rest.
      ws2812_write pf_ok s0 [0x33, 0x22, 0x11, 0, 1, 2, 3, 4] 8 =
        (Inr 8, state', Dma_map_single 1 frame 27 0x1000 # rest) \<and>
      frame = take 27 (buffer state') \<and> length frame = 27 \<and>
      drop 12 frame = replicate 15 0) \<and>
   (\<exists>state' frame rest.
      ws2812_write pf_ok s0 [] 0 = (Inr 0, state', Dma_map_single 1 frame 15 0x1000 # rest) \<and>
      length frame = 15 \<and> frame = replicate 15 0)"
proof -
  have n: "num_leds s0 = 1" "dev s0 = 1" "map_single_result pf_ok = 0x1000"
    by (simp_all add: s0_def pf_ok_def)
  have r: "RESET_BYTES = 15" by (simp add: RESET_BYTES_def)
  have "\<exists>state' frame rest.
      ws2812_write pf_ok s0 [0x33, 0x22, 0x11, 0, 1, 2, 3, 4] 8 =
        (Inr 8, state', Dma_map_single 1 frame 27 0x1000 # rest) \<and>
      frame = take 27 (buffer state') \<and> length frame = 27 \<and>
      drop 12 frame = replicate 15 0"
    using ws2812_write_frame [of s0 8 "[0x33, 0x22, 0x11, 0, 1, 2, 3, 4]" pf_ok] state_ok_s0
    by (simp add: n r) blast
  moreover have "\<exists>state' frame rest.
      ws2812_write pf_ok s0 [] 0 = (Inr 0, state', Dma_map_single 1 frame 15 0x1000 # rest) \<and>
      length frame = 15 \<and> frame = replicate 15 0"
    using ws2812_write_frame [of s0 0 "[]" pf_ok] state_ok_s0
    by (simp add: n r) (metis drop0)
  ultimately show ?thesis
    using state_ok_s0 by (simp add: n)
qed

text \<open>
  C9. On every device state with the buffers of the probe function, \<open>clear_leds\<close> leaves the
  frame buffer holding \<open>num_leds * 12\<close> bytes \<open>0x88\<close> followed by \<open>RESET_BYTES\<close> zero bytes and
  makes the same DMA calls (same bytes, same length) as a write of \<open>num_leds\<close> zero pixels
  does at any brightness \<open>b\<close>.
\<close>

theorem clear_leds_as_zero_write:
  assumes "state_ok state"
  shows "\<exists>st1 st2 rest.
     clear_leds pf state =
       (0, st1,
        Dma_map_single (dev state) (buffer st1) (num_leds state * 12 + RESET_BYTES)
          (map_single_result pf) # rest) \<and>
     ws2812_write pf (state\<lparr>brightness := b\<rparr>) (replicate (num_leds state * 4) 0)
         (num_leds state * 4) =
       (Inr (num_leds state * 4), st2,
        Dma_map_single (dev state) (buffer st2) (num_leds state * 12 + RESET_BYTES)
          (map_single_result pf) # rest) \<and>
     buffer st1 = replicate (num_leds state * 12) 0x88 @ replicate RESET_BYTES 0 \<and>
     buffer st2 = buffer st1"
proof -
  let ?n = "num_leds state"
  let ?s = "state\<lparr>brightness := b\<rparr>"
  from assms have ok: "state_ok ?s" and px: "length (pixbuf state) = ?n * 4"
    and bf: "length (buffer state) = ?n * 12 + RESET_BYTES"
    by (simp_all add: state_ok_def BYTES_PER_LED_def)
  have k: "min (?n * 4 div 4) (num_leds ?s) = ?n" by simp
  have rd: "min (?n * 4 div 4) (num_leds ?s) * 4 \<le> length (replicate (?n * 4) (0 :: u8))"
    by simp
  show ?thesis
    unfolding clear_leds_conv [OF assms] ws2812_write_conv [OF ok rd] k issue_dma_conv Let_def
      prod.case write_frame_zero [OF px]
    using bf by simp
qed

theorem clear_leds_as_zero_write_witness:
  "state_ok s0 \<and>
   (\<exists>st1 st2 rest.
     clear_leds pf_ok s0 = (0, st1, Dma_map_single 1 (buffer st1) 27 0x1000 # rest) \<and>
     ws2812_write pf_ok (s0\<lparr>brightness := 7\<rparr>) [0, 0, 0, 0] 4 =
       (Inr 4, st2, Dma_map_single 1 (buffer st2) 27 0x1000 # rest) \<and>
     buffer st1 = replicate 12 0x88 @ replicate 15 0 \<and>
     buffer st2 = buffer st1)"
proof -
  have n: "num_leds s0 = 1" "dev s0 = 1" "map_single_result pf_ok = 0x1000"
    by (simp_all add: s0_def pf_ok_def)
  have r: "RESET_BYTES = 15" by (simp add: RESET_BYTES_def)
  show ?thesis
    using clear_leds_as_zero_write [of s0 pf_ok 7] state_ok_s0
    by (simp add: n r numeral_eq_Suc)
qed

subsection \<open>The result of a write\<close>

text \<open>
  C7, as the spec states it (a successful write returns \<open>min (len / 4) num_leds * 4\<close>), fails:
  with one LED, a write of 8 readable bytes returns 8, not 4.
\<close>

theorem ws2812_write_not_words_consumed:
  "fst (ws2812_write pf_ok s0 [0x33, 0x22, 0x11, 0, 1, 2, 3, 4] 8) \<noteq>
     Inr (min (8 div 4) (num_leds s0) * 4)"
proof -
  have "min (8 div 4) (num_leds s0) * 4 \<le> length [0x33, 0x22, 0x11, 0, 1, 2, 3, 4 :: u8]"
    by (simp add: s0_def)
  then have "fst (ws2812_write pf_ok s0 [0x33, 0x22, 0x11, 0, 1, 2, 3, 4] 8) = Inr 8"
    by (rule ws2812_write_nofault)
  then show ?thesis by (simp add: s0_def)
qed

text \<open>
  C7, amended. The write returns \<^verbatim>\<open>-EFAULT\<close> exactly when \<^verbatim>\<open>copy_from_user\<close> cannot copy the
  \<open>min (count / 4) num_leds * 4\<close> bytes it is asked for; then only the staging area has
  changed (the frame buffer has not) and no DMA call is made. Otherwise it returns the
  caller's \<open>count\<close> unchanged, whatever the DMA mapping and submission answer.
\<close>

theorem ws2812_write_result:
  assumes "count < 2 ^ 31"
  shows
  "(fst (copy_from_user (pixbuf state) ubuf (min (count div 4) (num_leds state) * 4)) \<noteq> 0
      \<longleftrightarrow> length ubuf < min (count div 4) (num_leds state) * 4) \<and>
   (fst (ws2812_write pf state ubuf count) = Inl EFAULT
      \<longleftrightarrow> length ubuf < min (count div 4) (num_leds state) * 4) \<and>
   (length ubuf < min (count div 4) (num_leds state) * 4 \<longrightarrow>
      (\<exists>pix. ws2812_write pf state ubuf count = (Inl EFAULT, state\<lparr>pixbuf := pix\<rparr>, []))) \<and>
   (min (count div 4) (num_leds state) * 4 \<le> length ubuf \<longrightarrow>
      fst (ws2812_write pf state ubuf count) = Inr count \<and>
      fst (ws2812_write pf' state ubuf count) = Inr count)"
proof -
  let ?k = "min (count div 4) (num_leds state)"
  show ?thesis
  proof (cases "length ubuf < ?k * 4")
    case True
    then show ?thesis
      using ws2812_write_fault [OF True, of pf]
      by (simp add: copy_from_user_left) blast
  next
    case False
    then have le: "?k * 4 \<le> length ubuf" by simp
    show ?thesis
      using ws2812_write_nofault [OF le, of pf] ws2812_write_nofault [OF le, of pf'] False
      by (simp add: copy_from_user_left)
  qed
qed

theorem ws2812_write_result_witness:
  "(8 :: nat) < 2 ^ 31 \<and>
   length [0x33, 0x22, 0x11 :: u8] < min (8 div 4) (num_leds s0) * 4 \<and>
   (\<exists>pix. ws2812_write pf_ok s0 [0x33, 0x22, 0x11] 8 = (Inl EFAULT, s0\<lparr>pixbuf := pix\<rparr>, [])) \<and>
   min (8 div 4) (num_leds s0) * 4 \<le> length [0x33, 0x22, 0x11, 0, 1, 2, 3, 4 :: u8] \<and>
   fst (ws2812_write pf_ok s0 [0x33, 0x22, 0x11, 0, 1, 2, 3, 4] 8) = Inr 8 \<and>
   fst (ws2812_write pf_noprep s0 [0x33, 0x22, 0x11, 0, 1, 2, 3, 4] 8) = Inr 8"
proof -
  have n: "num_leds s0 = 1" by (simp add: s0_def)
  show ?thesis
    using ws2812_write_result [where count = 8 and state = s0 and ubuf = "[0x33, 0x22, 0x11]"
          and pf = pf_ok and pf' = pf_ok]
      ws2812_write_result [where count = 8 and state = s0
          and ubuf = "[0x33, 0x22, 0x11, 0, 1, 2, 3, 4]" and pf = pf_ok and pf' = pf_noprep]
    by (simp add: n)
qed

subsection \<open>The DMA mapping\<close>

text \<open>
  C5 (the completion callback releases the mapping with the length it was mapped with)
  fails on the code: with one LED and one pixel written, \<^verbatim>\<open>dma_map_single\<close> is called with
  length 27 and \<open>ws2812_callback\<close> calls \<^verbatim>\<open>dma_unmap_single\<close> with length 12, on the same
  device and bus address.
\<close>

theorem callback_unmap_length_differs:
  "snd (snd (ws2812_write pf_ok s0 [0x33, 0x22, 0x11, 0] 4)) =
     [Dma_map_single 1
        [0xe8, 0x88, 0x88, 0x88, 0xee, 0x8e, 0x88, 0x88, 0x88, 0x88, 0x88, 0x88,
         0, 0, 0, 0, 0, 0, 0, 0, 0, 0, 0, 0, 0, 0, 0] 27 0x1000,
      Dmaengine_prep_slave_single 2 0x1000 27 True,
      Dmaengine_submit,
      Dma_async_issue_pending 2] \<and>
   ws2812_callback (fst (snd (ws2812_write pf_ok s0 [0x33, 0x22, 0x11, 0] 4))) =
     [Dma_unmap_single 1 0x1000 12]"
  by code_simp

text \<open>
  C6 (the mapping is released when the descriptor is rejected) fails on the code: when
  \<^verbatim>\<open>dma_map_single\<close> succeeds and \<^verbatim>\<open>dmaengine_prep_slave_single\<close> returns no descriptor,
  \<open>issue_dma\<close> returns \<open>-1\<close> having made no call to \<^verbatim>\<open>dma_unmap_single\<close>.
\<close>

theorem issue_dma_prep_failure_keeps_mapping:
  "issue_dma pf_noprep s0 (buffer s0) 27 =
     (- 1, s0\<lparr>dma_addr := 0x1000\<rparr>,
      [Dma_map_single 1 (replicate 27 0xAA) 27 0x1000,
       Dmaengine_prep_slave_single 2 0x1000 27 False])"
  by (simp add: issue_dma_def pf_noprep_def s0_def)

end
